theory Spec2Isabelle
  imports Complex_Main "HOL-Library.AList"
begin

section \<open>Values, dictionaries and decoded records\<close>

text \<open>
  The exceptions that the modelled code can meet. A field that a numpy structured value does
  not have is a \<open>ValueError\<close> (``no field of name ...''), a reduction of a zero-size array is
  a \<open>ValueError\<close> too, and indexing row 0 of an array without rows is an \<open>IndexError\<close>.
\<close>

datatype py_error = ValueError string | IndexError string | KeyError string

text \<open>
  A cell of a feature row or of the output table: a float, the missing-value marker
  \<open>np.nan\<close>, a string (the battery name) or an integer (the cycle number and the RUL).
  Finite float64 samples are read as the real numbers they denote; minimum, maximum and
  taking the last element do not round.
\<close>

datatype cell = Num real | NaN | Str string | IntV int

text \<open>
  A Python \<open>dict\<close> keeps its keys in insertion order, and assigning to a key that exists
  replaces the value where the key stands: this is \<open>AList.update\<close> on an association list.
  A table (a \<open>DataFrame\<close> built from a list of dicts that all have the same keys) is the list of
  its rows; \<open>pd.DataFrame()\<close> is the empty list.
\<close>

type_synonym row = "(string \<times> cell) list"
type_synonym table = "row list"

definition dict_update :: "row \<Rightarrow> row \<Rightarrow> row" where
  \<comment> \<open>\<open>d.update(other)\<close>, also the unpacking \<open>{**d, **other}\<close>\<close>
  "dict_update d other = fold (\<lambda>(k, v). AList.update k v) other d"

text \<open>
  \<open>scipy.io.loadmat\<close> delivers every numeric MATLAB array with two dimensions: a channel of
  \<open>n\<close> samples has shape \<open>(1, n)\<close>, and MATLAB's empty array \<open>[]\<close> has shape \<open>(0, 0)\<close>. An
  array is the list of its rows, and \<open>a[0]\<close> raises when there is no row.
\<close>

type_synonym ndarray = "real list list"

definition row0 :: "ndarray \<Rightarrow> py_error + real list" where
  "row0 a = (case a of
      [] \<Rightarrow> Inl (IndexError ''index 0 is out of bounds for axis 0 with size 0'')
    | r # _ \<Rightarrow> Inr r)"

text \<open>
  The \<open>data\<close> structure of a cycle entry: its field names (\<open>dtype.names\<close>) in order, each
  with its array.
\<close>

type_synonym struct = "(string \<times> ndarray) list"

definition dtype_names :: "struct \<Rightarrow> string list" where
  "dtype_names data = map fst data"

definition getfield :: "struct \<Rightarrow> string \<Rightarrow> py_error + ndarray" where
  "getfield data name = (case map_of data name of
      None \<Rightarrow> Inl (ValueError (''no field of name '' @ name))
    | Some a \<Rightarrow> Inr a)"

definition channel :: "struct \<Rightarrow> string \<Rightarrow> py_error + real list" where
  \<comment> \<open>\<open>data[name][0]\<close>\<close>
  "channel data name = (case getfield data name of Inl e \<Rightarrow> Inl e | Inr a \<Rightarrow> row0 a)"

text \<open>
  One entry of the cycle list: \<open>cycle["type"][0]\<close> and \<open>cycle["data"][0, 0]\<close>.
\<close>

record cycle_entry =
  ctype :: string
  data :: struct

text \<open>
  The decoded file, \<open>mat\<close>: its top-level keys in iteration order. The value of a key is
  looked at only through the \<open>cycle\<close> field of the structure \<open>mat[key][0, 0]\<close>: \<open>None\<close> when
  \<open>"cycle"\<close> is not among the structure's field names, and the cycle list
  \<open>mat[key][0, 0]["cycle"][0]\<close> otherwise.
\<close>

type_synonym mat_dict = "(string \<times> cycle_entry list option) list"

section \<open>Statistical feature functions\<close>

text \<open>
  \<open>np.min\<close> and \<open>np.max\<close> raise on an empty array; \<open>np.mean\<close> of an empty array returns
  \<open>nan\<close> (with a warning). The float64 mean of a non-empty array depends on numpy's
  summation order and on the rounding of each addition and of the division; it is the
  parameter \<open>fmean\<close> of the model, about which nothing is assumed.
\<close>

definition np_mean :: "(real list \<Rightarrow> real) \<Rightarrow> real list \<Rightarrow> py_error + cell" where
  "np_mean fmean xs = (if xs = [] then Inr NaN else Inr (Num (fmean xs)))"

definition np_min :: "real list \<Rightarrow> py_error + cell" where
  "np_min xs = (case xs of
      [] \<Rightarrow> Inl (ValueError ''zero-size array to reduction operation minimum which has no identity'')
    | x # r \<Rightarrow> Inr (Num (fold min r x)))"

definition np_max :: "real list \<Rightarrow> py_error + cell" where
  "np_max xs = (case xs of
      [] \<Rightarrow> Inl (ValueError ''zero-size array to reduction operation maximum which has no identity'')
    | x # r \<Rightarrow> Inr (Num (fold max r x)))"

definition STAT_FUNCS :: "(real list \<Rightarrow> real) \<Rightarrow> (string \<times> (real list \<Rightarrow> py_error + cell)) list" where
  "STAT_FUNCS fmean = [(''avg'', np_mean fmean), (''min'', np_min), (''max'', np_max)]"

definition extract_stats :: "(real list \<Rightarrow> real) \<Rightarrow> real list \<Rightarrow> string \<Rightarrow> row" where
  \<comment> \<open>the \<open>try\<close> around each statistic turns every exception into \<open>np.nan\<close>\<close>
  "extract_stats fmean xs prefix =
     fold (\<lambda>(stat_name, func) features.
             AList.update (prefix @ ''_'' @ stat_name)
               (case func xs of Inl _ \<Rightarrow> NaN | Inr v \<Rightarrow> v) features)
          (STAT_FUNCS fmean) []"

section \<open>Processing one file\<close>

definition startswith :: "string \<Rightarrow> string \<Rightarrow> bool" where
  "startswith s p = (take (length p) s = p)"

definition basename :: "string \<Rightarrow> string \<Rightarrow> string" where
  \<comment> \<open>\<open>os.path.basename\<close>: what follows the last separator; \<open>seps\<close> is \<open>"/"\<close> for
      \<open>posixpath\<close> and \<open>"\\/"\<close> for \<open>ntpath\<close> (after its drive prefix)\<close>
  "basename seps p = rev (takeWhile (\<lambda>c. c \<notin> set seps) (rev p))"

definition battery_name_of :: "string \<Rightarrow> string \<Rightarrow> string" where
  \<comment> \<open>\<open>os.path.basename(mat_path).split(".")[0]\<close>\<close>
  "battery_name_of seps mat_path = takeWhile (\<lambda>c. c \<noteq> CHR ''.'') (basename seps mat_path)"

definition main_key_of :: "mat_dict \<Rightarrow> string option" where
  \<comment> \<open>\<open>next((k for k in mat.keys() if not k.startswith("__")), None)\<close>\<close>
  "main_key_of mat = find (\<lambda>k. \<not> startswith k ''__'') (map fst mat)"

definition last_or_nan :: "struct \<Rightarrow> string \<Rightarrow> py_error + cell" where
  \<comment> \<open>the value stored for \<open>Time\<close> and for \<open>Capacity\<close> of a discharge entry\<close>
  "last_or_nan d name =
     (if name \<in> set (dtype_names d) then
        (case channel d name of
           Inl e \<Rightarrow> Inl e
         | Inr xs \<Rightarrow> if length xs > 0 then Inr (Num (last xs)) else Inr NaN)
      else Inr NaN)"

definition cycle_features :: "(real list \<Rightarrow> real) \<Rightarrow> cycle_entry \<Rightarrow> py_error + row" where
  \<comment> \<open>the body of the loop for an entry typed \<open>charge\<close> or \<open>discharge\<close>, up to the append\<close>
  "cycle_features fmean cycle =
     (case channel (data cycle) ''Voltage_measured'' of Inl e \<Rightarrow> Inl e | Inr voltage \<Rightarrow>
      case channel (data cycle) ''Current_measured'' of Inl e \<Rightarrow> Inl e | Inr current \<Rightarrow>
      case channel (data cycle) ''Temperature_measured'' of Inl e \<Rightarrow> Inl e | Inr temp \<Rightarrow>
      let prefix = ctype cycle;
          features = dict_update [] (extract_stats fmean voltage (prefix @ ''_voltage''));
          features = dict_update features (extract_stats fmean current (prefix @ ''_current''));
          features = dict_update features (extract_stats fmean temp (prefix @ ''_temp''))
      in if ctype cycle = ''discharge'' then
           (case last_or_nan (data cycle) ''Time'' of Inl e \<Rightarrow> Inl e | Inr duration \<Rightarrow>
            case last_or_nan (data cycle) ''Capacity'' of Inl e \<Rightarrow> Inl e | Inr capacity \<Rightarrow>
            Inr (AList.update ''capacity_Ah'' capacity
                  (AList.update ''discharge_duration_s'' duration features)))
         else Inr features)"

fun cycle_loop ::
  "(real list \<Rightarrow> real) \<Rightarrow> cycle_entry list \<Rightarrow> row list \<Rightarrow> row list \<Rightarrow> py_error + (row list \<times> row list)"
where
  "cycle_loop fmean [] rows_charge rows_discharge = Inr (rows_charge, rows_discharge)"
| "cycle_loop fmean (cycle # rest) rows_charge rows_discharge =
     (if ctype cycle \<notin> set [''charge'', ''discharge''] then
        cycle_loop fmean rest rows_charge rows_discharge
      else
        (case cycle_features fmean cycle of
           Inl e \<Rightarrow> Inl e
         | Inr features \<Rightarrow>
             if ctype cycle = ''discharge'' then
               cycle_loop fmean rest rows_charge (rows_discharge @ [features])
             else
               cycle_loop fmean rest (rows_charge @ [features]) rows_discharge))"

definition merged_row :: "string \<Rightarrow> nat \<Rightarrow> row \<Rightarrow> row \<Rightarrow> row" where
  "merged_row battery_name idx charge_row discharge_row =
     dict_update
       (dict_update [(''battery'', Str battery_name), (''cycle'', IntV (int idx + 1))] charge_row)
       discharge_row"

definition pair_rows :: "string \<Rightarrow> row list \<Rightarrow> row list \<Rightarrow> table" where
  "pair_rows battery_name rows_charge rows_discharge =
     (let n_pairs = min (length rows_charge) (length rows_discharge) in
      if n_pairs = 0 then []
      else map (\<lambda>idx. merged_row battery_name idx (rows_charge ! idx) (rows_discharge ! idx))
             [0..<n_pairs])"

definition process_battery ::
  "(real list \<Rightarrow> real) \<Rightarrow> string \<Rightarrow> string \<Rightarrow> mat_dict \<Rightarrow> py_error + table"
where
  "process_battery fmean seps mat_path mat =
     (let battery_name = battery_name_of seps mat_path in
      case main_key_of mat of
        None \<Rightarrow> Inr []
      | Some main_key \<Rightarrow>
          (case map_of mat main_key of
             None \<Rightarrow> Inr []
           | Some None \<Rightarrow> Inr []
           | Some (Some cycles) \<Rightarrow>
               (case cycle_loop fmean cycles [] [] of
                  Inl e \<Rightarrow> Inl e
                | Inr (rows_charge, rows_discharge) \<Rightarrow>
                    Inr (pair_rows battery_name rows_charge rows_discharge))))"

section \<open>The batch and the RUL label\<close>

definition df_empty :: "table \<Rightarrow> bool" where
  "df_empty df = (df = [])"

text \<open>
  The loop of \<open>main\<close> over the files that end in \<open>.mat\<close>, in discovery order: each with its
  path and its decoded content. \<open>main\<close> catches nothing, so an exception of
  \<open>process_battery\<close> ends the batch.
\<close>

fun batch_loop ::
  "(real list \<Rightarrow> real) \<Rightarrow> string \<Rightarrow> (string \<times> mat_dict) list \<Rightarrow> table list \<Rightarrow> py_error + table list"
where
  "batch_loop fmean seps [] all_dfs = Inr all_dfs"
| "batch_loop fmean seps ((path, mat) # files) all_dfs =
     (case process_battery fmean seps path mat of
        Inl e \<Rightarrow> Inl e
      | Inr df \<Rightarrow>
          batch_loop fmean seps files (if \<not> df_empty df then all_dfs @ [df] else all_dfs))"

fun key_columns :: "table \<Rightarrow> py_error + (string \<times> int) list" where
  \<comment> \<open>the columns \<open>battery\<close> and \<open>cycle\<close> of a table, row by row\<close>
  "key_columns [] = Inr []"
| "key_columns (r # rs) =
     (case map_of r ''battery'' of
        Some (Str b) \<Rightarrow>
          (case map_of r ''cycle'' of
             Some (IntV c) \<Rightarrow>
               (case key_columns rs of Inl e \<Rightarrow> Inl e | Inr kcs \<Rightarrow> Inr ((b, c) # kcs))
           | _ \<Rightarrow> Inl (KeyError ''cycle''))
      | _ \<Rightarrow> Inl (KeyError ''battery''))"

definition rul_transform :: "(string \<times> int) list \<Rightarrow> int list" where
  \<comment> \<open>\<open>groupby("battery")["cycle"].transform(lambda x: x.max() - x)\<close>\<close>
  "rul_transform kcs =
     map (\<lambda>(b, c). Max (set (map snd (filter (\<lambda>(b', c'). b' = b) kcs))) - c) kcs"

definition add_RUL :: "table \<Rightarrow> py_error + table" where
  "add_RUL final_df =
     (case key_columns final_df of
        Inl e \<Rightarrow> Inl e
      | Inr kcs \<Rightarrow>
          Inr (map (\<lambda>(r, v). AList.update ''RUL'' (IntV v) r) (zip final_df (rul_transform kcs))))"

definition main ::
  "(real list \<Rightarrow> real) \<Rightarrow> string \<Rightarrow> (string \<times> mat_dict) list \<Rightarrow> py_error + table option"
where
  \<comment> \<open>the table that \<open>main\<close> writes; \<open>None\<close> when no file gave a row and nothing is written\<close>
  "main fmean seps files =
     (case batch_loop fmean seps files [] of
        Inl e \<Rightarrow> Inl e
      | Inr all_dfs \<Rightarrow>
          if all_dfs = [] then Inr None
          else (case add_RUL (concat all_dfs) of
                  Inl e \<Rightarrow> Inl e
                | Inr final_df \<Rightarrow> Inr (Some final_df)))"

section \<open>Predicates used in the statements\<close>

definition is_cd :: "cycle_entry \<Rightarrow> bool" where
  "is_cd e = (ctype e = ''charge'' \<or> ctype e = ''discharge'')"





definition exact_mean :: "real list \<Rightarrow> real" where
  \<comment> \<open>the mean without rounding, used where a statement is evaluated on a concrete input\<close>
  "exact_mean xs = sum_list xs / real (length xs)"

definition stat_names :: "string \<Rightarrow> string list" where
  \<comment> \<open>the nine statistic keys of an entry whose type is \<open>t\<close>\<close>
  "stat_names t = [t @ ''_voltage_avg'', t @ ''_voltage_min'', t @ ''_voltage_max'',
     t @ ''_current_avg'', t @ ''_current_min'', t @ ''_current_max'',
     t @ ''_temp_avg'', t @ ''_temp_min'', t @ ''_temp_max'']"

definition keys_of :: "row \<Rightarrow> cell option \<times> cell option" where
  "keys_of r = (map_of r ''battery'', map_of r ''cycle'')"

text \<open>Concrete entries and files, on which the statements below are evaluated.\<close>

definition sensors :: struct where
  "sensors = [(''Voltage_measured'', [[4, 3]]), (''Current_measured'', [[1, 2]]),
              (''Temperature_measured'', [[24]])]"

definition ex_charge :: cycle_entry where
  "ex_charge = \<lparr>ctype = ''charge'', data = sensors\<rparr>"

definition ex_discharge :: cycle_entry where
  "ex_discharge = \<lparr>ctype = ''discharge'', data = sensors @ [(''Time'', [[0, 10]]), (''Capacity'', [[2]])]\<rparr>"

definition ex_junk :: cycle_entry where
  "ex_junk = \<lparr>ctype = ''impedance'', data = []\<rparr>"

definition two_files :: "(string \<times> mat_dict) list" where
  \<comment> \<open>two files with the same truncated base name, in different directories\<close>
  "two_files =
     [(''dirA/B0005.mat'',
         [(''__header__'', None),
          (''B0005'', Some [ex_charge, ex_discharge, ex_charge, ex_discharge])]),
      (''dirB/B0005.v2.mat'', [(''B0005'', Some [ex_charge, ex_junk, ex_discharge])])]"




section \<open>The statistics of one channel\<close>

lemma extract_stats_unfold:
  "extract_stats fmean xs prefix =
     [(prefix @ ''_avg'', case np_mean fmean xs of Inl _ \<Rightarrow> NaN | Inr v \<Rightarrow> v),
      (prefix @ ''_min'', case np_min xs of Inl _ \<Rightarrow> NaN | Inr v \<Rightarrow> v),
      (prefix @ ''_max'', case np_max xs of Inl _ \<Rightarrow> NaN | Inr v \<Rightarrow> v)]"
  by (simp add: extract_stats_def STAT_FUNCS_def)

text \<open>
  C5. On the empty sequence, for any prefix, \<open>extract_stats\<close> returns exactly three
  entries, under the keys \<open>prefix_avg\<close>, \<open>prefix_min\<close> and \<open>prefix_max\<close>, and the value of each
  is the missing-value marker. The exceptions that \<open>np.min\<close> and \<open>np.max\<close> raise on an empty
  array are caught inside, so the function returns.
\<close>

theorem extract_stats_empty:
  "extract_stats fmean [] prefix =
     [(prefix @ ''_avg'', NaN), (prefix @ ''_min'', NaN), (prefix @ ''_max'', NaN)]"
  by (simp add: extract_stats_unfold np_mean_def np_min_def np_max_def)


section \<open>Dictionaries and channels\<close>

lemma update_fresh: "k \<notin> fst ` set d \<Longrightarrow> AList.update k v d = d @ [(k, v)]"
  by (induction d) auto

lemma dict_update_append:
  "distinct (map fst other) \<Longrightarrow> fst ` set other \<inter> fst ` set d = {} \<Longrightarrow> dict_update d other = d @ other"
proof (induction other arbitrary: d)
  case Nil
  then show ?case by (simp add: dict_update_def)
next
  case (Cons kv other)
  obtain k v where kv: "kv = (k, v)" by (cases kv)
  from Cons.prems kv have fresh: "k \<notin> fst ` set d" by auto
  from Cons.prems kv have "distinct (map fst other)" and "fst ` set other \<inter> fst ` set (d @ [(k, v)]) = {}"
    by auto
  then have "dict_update (d @ [(k, v)]) other = (d @ [(k, v)]) @ other"
    by (rule Cons.IH)
  with fresh kv show ?case
    by (simp add: dict_update_def update_fresh)
qed





lemma cf_charge: "channel (data e) ''Voltage_measured'' = Inr v \<Longrightarrow> channel (data e) ''Current_measured'' = Inr c \<Longrightarrow> channel (data e) ''Temperature_measured'' = Inr t \<Longrightarrow> ctype e \<noteq> ''discharge'' \<Longrightarrow>
  cycle_features fmean e = Inr (extract_stats fmean v (ctype e @ ''_voltage'') @ extract_stats fmean c (ctype e @ ''_current'') @ extract_stats fmean t (ctype e @ ''_temp''))"
  by (simp add: cycle_features_def extract_stats_unfold dict_update_def Let_def)

lemma cf_discharge: "channel (data e) ''Voltage_measured'' = Inr v \<Longrightarrow> channel (data e) ''Current_measured'' = Inr c \<Longrightarrow> channel (data e) ''Temperature_measured'' = Inr t \<Longrightarrow> ctype e = ''discharge'' \<Longrightarrow>
  last_or_nan (data e) ''Time'' = Inr du \<Longrightarrow> last_or_nan (data e) ''Capacity'' = Inr ca \<Longrightarrow>
  cycle_features fmean e = Inr (extract_stats fmean v ''discharge_voltage'' @ extract_stats fmean c ''discharge_current'' @ extract_stats fmean t ''discharge_temp'' @ [(''discharge_duration_s'', du), (''capacity_Ah'', ca)])"
  by (simp add: cycle_features_def extract_stats_unfold dict_update_def Let_def)

lemma cf_Inr_cases:
  assumes "cycle_features fmean e = Inr r"
  obtains (charge) v c t where "ctype e \<noteq> ''discharge''" 
     "channel (data e) ''Voltage_measured'' = Inr v" "channel (data e) ''Current_measured'' = Inr c" "channel (data e) ''Temperature_measured'' = Inr t"
     "r = extract_stats fmean v (ctype e @ ''_voltage'') @ extract_stats fmean c (ctype e @ ''_current'') @ extract_stats fmean t (ctype e @ ''_temp'')"
  | (discharge) v c t du ca where "ctype e = ''discharge''"
     "channel (data e) ''Voltage_measured'' = Inr v" "channel (data e) ''Current_measured'' = Inr c" "channel (data e) ''Temperature_measured'' = Inr t"
     "last_or_nan (data e) ''Time'' = Inr du" "last_or_nan (data e) ''Capacity'' = Inr ca"
     "r = extract_stats fmean v ''discharge_voltage'' @ extract_stats fmean c ''discharge_current'' @ extract_stats fmean t ''discharge_temp'' @ [(''discharge_duration_s'', du), (''capacity_Ah'', ca)]"
proof -
  from assms obtain v c t where ch: "channel (data e) ''Voltage_measured'' = Inr v" "channel (data e) ''Current_measured'' = Inr c" "channel (data e) ''Temperature_measured'' = Inr t"
    by (auto simp: cycle_features_def split: sum.splits)
  show thesis
  proof (cases "ctype e = ''discharge''")
    case False
    with ch assms cf_charge[OF ch False, of fmean] show thesis by (intro charge) auto
  next
    case True
    with assms ch obtain du ca where l: "last_or_nan (data e) ''Time'' = Inr du" "last_or_nan (data e) ''Capacity'' = Inr ca"
      by (auto simp: cycle_features_def Let_def split: sum.splits)
    with ch assms cf_discharge[OF ch True l, of fmean] True show thesis by (intro discharge) auto
  qed
qed



section \<open>The loop over the cycle list and the pairing\<close>


lemma cycle_loop_Inr:
  "cycle_loop fmean cs rc rd = Inr (rc', rd') \<Longrightarrow>
   \<exists>xs ys. rc' = rc @ xs \<and> rd' = rd @ ys \<and>
     map (cycle_features fmean) (filter (\<lambda>e. ctype e = ''charge'') cs) = map Inr xs \<and>
     map (cycle_features fmean) (filter (\<lambda>e. ctype e = ''discharge'') cs) = map Inr ys"
proof (induction cs arbitrary: rc rd)
  case Nil
  then show ?case by simp
next
  case (Cons e cs)
  show ?case
  proof (cases "is_cd e")
    case False
    with Cons.prems have "cycle_loop fmean cs rc rd = Inr (rc', rd')"
      by (simp add: is_cd_def)
    from Cons.IH[OF this] False show ?thesis by (simp add: is_cd_def)
  next
    case True
    with Cons.prems obtain r where r: "cycle_features fmean e = Inr r"
      by (cases "cycle_features fmean e") (auto simp: is_cd_def)
    show ?thesis
    proof (cases "ctype e = ''discharge''")
      case True
      with Cons.prems r have "cycle_loop fmean cs rc (rd @ [r]) = Inr (rc', rd')" by simp
      from Cons.IH[OF this] obtain xs ys where
        "rc' = rc @ xs" "rd' = (rd @ [r]) @ ys"
        "map (cycle_features fmean) (filter (\<lambda>e. ctype e = ''charge'') cs) = map Inr xs"
        "map (cycle_features fmean) (filter (\<lambda>e. ctype e = ''discharge'') cs) = map Inr ys"
        by blast
      with True r show ?thesis
        by (intro exI[of _ xs] exI[of _ "r # ys"]) simp
    next
      case False
      with \<open>is_cd e\<close> have ch: "ctype e = ''charge''" by (simp add: is_cd_def)
      with Cons.prems r have "cycle_loop fmean cs (rc @ [r]) rd = Inr (rc', rd')" by simp
      from Cons.IH[OF this] obtain xs ys where
        "rc' = (rc @ [r]) @ xs" "rd' = rd @ ys"
        "map (cycle_features fmean) (filter (\<lambda>e. ctype e = ''charge'') cs) = map Inr xs"
        "map (cycle_features fmean) (filter (\<lambda>e. ctype e = ''discharge'') cs) = map Inr ys"
        by blast
      with ch r show ?thesis
        by (intro exI[of _ "r # xs"] exI[of _ ys]) simp
    qed
  qed
qed



lemma pair_rows_length:
  "length (pair_rows n rc rd) = min (length rc) (length rd)"
  by (simp add: pair_rows_def Let_def)

lemma pair_rows_nth:
  "idx < min (length rc) (length rd) \<Longrightarrow>
   pair_rows n rc rd ! idx = merged_row n idx (rc ! idx) (rd ! idx)"
  by (auto simp add: pair_rows_def Let_def)

lemma cf_keys:
  assumes "cycle_features fmean e = Inr r"
  shows "map fst r = (if ctype e = ''discharge'' then stat_names ''discharge'' @ [''discharge_duration_s'', ''capacity_Ah''] else stat_names (ctype e))"
  using assms by (cases rule: cf_Inr_cases) (simp_all add: extract_stats_unfold stat_names_def)

lemma merged_row_append:
  assumes "cycle_features fmean ec = Inr rc" "ctype ec = ''charge''"
    and "cycle_features fmean ed = Inr rd" "ctype ed = ''discharge''"
  shows "merged_row n idx rc rd = (''battery'', Str n) # (''cycle'', IntV (int idx + 1)) # rc @ rd"
proof -
  have kc: "map fst rc = stat_names ''charge''" using cf_keys[OF assms(1)] assms(2) by simp
  have kd: "map fst rd = stat_names ''discharge'' @ [''discharge_duration_s'', ''capacity_Ah'']"
    using cf_keys[OF assms(3)] assms(4) by simp
  have sc: "fst ` set rc = set (stat_names ''charge'')" using kc by (metis set_map)
  have sd: "fst ` set rd = set (stat_names ''discharge'' @ [''discharge_duration_s'', ''capacity_Ah''])" using kd by (metis set_map)
  have 1: "dict_update [(''battery'', Str n), (''cycle'', IntV (int idx + 1))] rc = [(''battery'', Str n), (''cycle'', IntV (int idx + 1))] @ rc"
    by (rule dict_update_append) (simp_all add: kc sc, simp_all add: stat_names_def)
  have 2: "dict_update ([(''battery'', Str n), (''cycle'', IntV (int idx + 1))] @ rc) rd = ([(''battery'', Str n), (''cycle'', IntV (int idx + 1))] @ rc) @ rd"
    by (rule dict_update_append) (simp_all add: kd sd sc image_Un, simp_all add: stat_names_def)
  show ?thesis unfolding merged_row_def 1 using 2 by simp
qed

section \<open>The RUL column\<close>

lemma key_columns_Inr:
  "key_columns df = Inr kcs \<Longrightarrow> map keys_of df = map (\<lambda>(b, c). (Some (Str b), Some (IntV c))) kcs"
  by (induction df arbitrary: kcs)
     (auto simp: keys_of_def split: option.splits cell.splits sum.splits)

lemma keys_of_update_RUL: "keys_of (AList.update ''RUL'' v r) = keys_of r"
  by (simp add: keys_of_def update_conv')

lemma add_RUL_Inr:
  assumes "add_RUL df = Inr out"
  obtains kcs where "key_columns df = Inr kcs" "length kcs = length df"
    "out = map (\<lambda>(r, v). AList.update ''RUL'' (IntV v) r) (zip df (rul_transform kcs))"
    "map keys_of out = map (\<lambda>(b, c). (Some (Str b), Some (IntV c))) kcs"
proof -
  from assms obtain kcs where kc: "key_columns df = Inr kcs"
    and out: "out = map (\<lambda>(r, v). AList.update ''RUL'' (IntV v) r) (zip df (rul_transform kcs))"
    by (auto simp: add_RUL_def split: sum.splits)
  from key_columns_Inr[OF kc] have m: "map keys_of df = map (\<lambda>(b, c). (Some (Str b), Some (IntV c))) kcs" .
  then have len: "length kcs = length df" by (metis length_map)
  have "length (rul_transform kcs) = length df" using len by (simp add: rul_transform_def)
  then have "map keys_of out = map keys_of df"
    unfolding out by (auto intro!: nth_equalityI simp: keys_of_update_RUL)
  with m kc len out that show thesis by simp
qed

lemma group_set:
  assumes "map keys_of out = map (\<lambda>(b, c). (Some (Str b), Some (IntV c))) kcs"
  shows "{c'. \<exists>r'\<in>set out. map_of r' ''battery'' = Some (Str b) \<and> map_of r' ''cycle'' = Some (IntV c')}
         = set (map snd (filter (\<lambda>(b', c'). b' = b) kcs))"
proof -
  have img: "keys_of ` set out = (\<lambda>(b, c). (Some (Str b), Some (IntV c))) ` set kcs"
    using assms by (metis set_map)
  have iff: "(\<exists>r'\<in>set out. map_of r' ''battery'' = Some (Str b) \<and> map_of r' ''cycle'' = Some (IntV c'))
       \<longleftrightarrow> (b, c') \<in> set kcs" for c'
  proof
    assume "\<exists>r'\<in>set out. map_of r' ''battery'' = Some (Str b) \<and> map_of r' ''cycle'' = Some (IntV c')"
    then obtain r' where "r' \<in> set out" "keys_of r' = (Some (Str b), Some (IntV c'))"
      by (auto simp: keys_of_def)
    then have "(Some (Str b), Some (IntV c')) \<in> keys_of ` set out" by force
    with img show "(b, c') \<in> set kcs" by auto
  next
    assume "(b, c') \<in> set kcs"
    then have "(Some (Str b), Some (IntV c')) \<in> keys_of ` set out"
      unfolding img by force
    then show "\<exists>r'\<in>set out. map_of r' ''battery'' = Some (Str b) \<and> map_of r' ''cycle'' = Some (IntV c')"
      by (auto simp: keys_of_def)
  qed
  show ?thesis unfolding iff by force
qed

lemma add_RUL_row:
  assumes "add_RUL df = Inr out" and "r \<in> set out"
  shows "\<exists>b c. map_of r ''battery'' = Some (Str b) \<and> map_of r ''cycle'' = Some (IntV c) \<and>
     map_of r ''RUL'' = Some (IntV (Max {c'. \<exists>r'\<in>set out. map_of r' ''battery'' = Some (Str b) \<and> map_of r' ''cycle'' = Some (IntV c')} - c))"
proof -
  from assms(1) obtain kcs where kc: "key_columns df = Inr kcs" and len: "length kcs = length df"
    and out: "out = map (\<lambda>(r, v). AList.update ''RUL'' (IntV v) r) (zip df (rul_transform kcs))"
    and ko: "map keys_of out = map (\<lambda>(b, c). (Some (Str b), Some (IntV c))) kcs"
    by (rule add_RUL_Inr)
  from assms(2) obtain i where i: "i < length out" "r = out ! i" by (metis in_set_conv_nth)
  have lo: "length out = length df" using len by (simp add: out rul_transform_def)
  obtain b c where bc: "kcs ! i = (b, c)" by (cases "kcs ! i")
  have "keys_of r = (Some (Str b), Some (IntV c))"
    using ko i lo len bc by (metis (no_types, lifting) case_prod_conv length_map nth_map)
  then have k: "map_of r ''battery'' = Some (Str b)" "map_of r ''cycle'' = Some (IntV c)"
    by (simp_all add: keys_of_def)
  have "r = AList.update ''RUL'' (IntV (rul_transform kcs ! i)) (df ! i)"
    using i lo len by (simp add: out rul_transform_def)
  then have "map_of r ''RUL'' = Some (IntV (rul_transform kcs ! i))"
    by (simp add: update_conv')
  moreover have "rul_transform kcs ! i = Max (set (map snd (filter (\<lambda>(b', c'). b' = b) kcs))) - c"
    using i lo len bc by (simp add: rul_transform_def)
  ultimately show ?thesis using k group_set[OF ko, of b] by auto
qed

section \<open>One file and the batch\<close>

lemma process_battery_cycles:
  assumes "main_key_of mat = Some k" and "map_of mat k = Some (Some cs)"
  shows "process_battery fmean seps path mat =
     (case cycle_loop fmean cs [] [] of
        Inl e \<Rightarrow> Inl e
      | Inr (rc, rd) \<Rightarrow> Inr (pair_rows (battery_name_of seps path) rc rd))"
  using assms by (simp add: process_battery_def)










section \<open>Feature rows\<close>




section \<open>The paired table\<close>

lemma map_Inr_nth:
  assumes "map f es = map Inr xs" and "i < length es"
  shows "f (es ! i) = Inr (xs ! i)" and "length xs = length es"
proof -
  from assms(1) show len: "length xs = length es" by (metis length_map)
  from assms have "map f es ! i = map Inr xs ! i" by simp
  with assms(2) len show "f (es ! i) = Inr (xs ! i)" by simp
qed

lemma process_battery_Inr:
  assumes "main_key_of mat = Some k" and "map_of mat k = Some (Some cycles)"
    and "process_battery fmean seps path mat = Inr df"
  obtains rc rd where
    "map (cycle_features fmean) (filter (\<lambda>e. ctype e = ''charge'') cycles) = map Inr rc"
    "map (cycle_features fmean) (filter (\<lambda>e. ctype e = ''discharge'') cycles) = map Inr rd"
    "df = pair_rows (battery_name_of seps path) rc rd"
proof -
  from assms obtain rc rd where loop: "cycle_loop fmean cycles [] [] = Inr (rc, rd)"
    and df: "df = pair_rows (battery_name_of seps path) rc rd"
    by (auto simp: process_battery_cycles split: sum.splits)
  from cycle_loop_Inr[OF loop] df that show thesis by auto
qed

lemma paired_row:
  assumes ch: "map (cycle_features fmean) (filter (\<lambda>e. ctype e = ''charge'') cycles) = map Inr rc"
    and dis: "map (cycle_features fmean) (filter (\<lambda>e. ctype e = ''discharge'') cycles) = map Inr rd"
    and idx: "idx < min (length rc) (length rd)"
  shows "cycle_features fmean (filter (\<lambda>e. ctype e = ''charge'') cycles ! idx) = Inr (rc ! idx)"
    and "cycle_features fmean (filter (\<lambda>e. ctype e = ''discharge'') cycles ! idx) = Inr (rd ! idx)"
    and "pair_rows n rc rd ! idx = merged_row n idx (rc ! idx) (rd ! idx)"
    and "pair_rows n rc rd ! idx = (''battery'', Str n) # (''cycle'', IntV (int idx + 1)) # rc ! idx @ rd ! idx"
proof -
  let ?cs = "filter (\<lambda>e. ctype e = ''charge'') cycles"
  let ?ds = "filter (\<lambda>e. ctype e = ''discharge'') cycles"
  have lc: "length rc = length ?cs" and ld: "length rd = length ?ds"
    using ch dis by (metis length_map)+
  with idx have ic: "idx < length ?cs" and id: "idx < length ?ds" by simp_all
  show c: "cycle_features fmean (?cs ! idx) = Inr (rc ! idx)" using map_Inr_nth(1)[OF ch ic] .
  show d: "cycle_features fmean (?ds ! idx) = Inr (rd ! idx)" using map_Inr_nth(1)[OF dis id] .
  have tc: "ctype (?cs ! idx) = ''charge''" using nth_mem[OF ic] by simp
  have td: "ctype (?ds ! idx) = ''discharge''" using nth_mem[OF id] by simp
  show p: "pair_rows n rc rd ! idx = merged_row n idx (rc ! idx) (rd ! idx)"
    using idx by (rule pair_rows_nth)
  show "pair_rows n rc rd ! idx = (''battery'', Str n) # (''cycle'', IntV (int idx + 1)) # rc ! idx @ rd ! idx"
    unfolding p by (rule merged_row_append[OF c tc d td])
qed




section \<open>The RUL label of the final table\<close>

lemma group_finite_Max:
  assumes ko: "map keys_of out = map (\<lambda>(b, c). (Some (Str b), Some (IntV c))) kcs"
    and r: "r \<in> set out" "map_of r ''battery'' = Some (Str b)" "map_of r ''cycle'' = Some (IntV c)"
  shows "c \<le> Max {c'. \<exists>r'\<in>set out. map_of r' ''battery'' = Some (Str b) \<and> map_of r' ''cycle'' = Some (IntV c')}"
proof -
  let ?G = "{c'. \<exists>r'\<in>set out. map_of r' ''battery'' = Some (Str b) \<and> map_of r' ''cycle'' = Some (IntV c')}"
  have "finite ?G" unfolding group_set[OF ko] by simp
  moreover have "c \<in> ?G" using r by blast
  ultimately show ?thesis by (rule Max_ge)
qed

text \<open>
  C3. In the table that the labeling step returns for the concatenation of the tables of
  all files, the \<open>RUL\<close> of every row is the greatest \<open>cycle\<close> among the rows that have the
  row's \<open>battery\<close> name, minus the row's own \<open>cycle\<close>. So every \<open>RUL\<close> is an integer that is
  not negative, and a row whose \<open>cycle\<close> is the greatest of its battery has \<open>RUL = 0\<close>.
\<close>

theorem rul_is_group_max_minus_cycle:
  assumes "add_RUL (concat all_dfs) = Inr final_df" and "r \<in> set final_df"
  shows "\<exists>b c v. map_of r ''battery'' = Some (Str b) \<and> map_of r ''cycle'' = Some (IntV c) \<and>
     map_of r ''RUL'' = Some (IntV v) \<and>
     v = Max {c'. \<exists>r'\<in>set final_df. map_of r' ''battery'' = Some (Str b) \<and>
                                     map_of r' ''cycle'' = Some (IntV c')} - c \<and>
     0 \<le> v \<and>
     (c = Max {c'. \<exists>r'\<in>set final_df. map_of r' ''battery'' = Some (Str b) \<and>
                                     map_of r' ''cycle'' = Some (IntV c')} \<longrightarrow> v = 0)"
proof -
  from add_RUL_row[OF assms] obtain b c where
    b: "map_of r ''battery'' = Some (Str b)" and c: "map_of r ''cycle'' = Some (IntV c)" and
    v: "map_of r ''RUL'' = Some (IntV (Max {c'. \<exists>r'\<in>set final_df. map_of r' ''battery'' = Some (Str b) \<and>
                                     map_of r' ''cycle'' = Some (IntV c')} - c))"
    by blast
  from assms(1) obtain kcs where
    ko: "map keys_of final_df = map (\<lambda>(b, c). (Some (Str b), Some (IntV c))) kcs"
    by (rule add_RUL_Inr)
  have "c \<le> Max {c'. \<exists>r'\<in>set final_df. map_of r' ''battery'' = Some (Str b) \<and>
                                     map_of r' ''cycle'' = Some (IntV c')}"
    using ko assms(2) b c by (rule group_finite_Max)
  with b c v show ?thesis by simp
qed

theorem rul_is_group_max_minus_cycle_witness:
  "add_RUL (concat
     [[[(''battery'', Str ''B1''), (''cycle'', IntV 1)], [(''battery'', Str ''B1''), (''cycle'', IntV 2)],
       [(''battery'', Str ''B1''), (''cycle'', IntV 3)]],
      [[(''battery'', Str ''B2''), (''cycle'', IntV 1)]]]) =
   Inr [[(''battery'', Str ''B1''), (''cycle'', IntV 1), (''RUL'', IntV 2)],
        [(''battery'', Str ''B1''), (''cycle'', IntV 2), (''RUL'', IntV 1)],
        [(''battery'', Str ''B1''), (''cycle'', IntV 3), (''RUL'', IntV 0)],
        [(''battery'', Str ''B2''), (''cycle'', IntV 1), (''RUL'', IntV 0)]] \<and>
   (\<exists>b c v. map_of [(''battery'', Str ''B1''), (''cycle'', IntV 1), (''RUL'', IntV 2)] ''battery'' = Some (Str b) \<and>
      map_of [(''battery'', Str ''B1''), (''cycle'', IntV 1), (''RUL'', IntV 2)] ''cycle'' = Some (IntV c) \<and>
      map_of [(''battery'', Str ''B1''), (''cycle'', IntV 1), (''RUL'', IntV 2)] ''RUL'' = Some (IntV v) \<and>
      v = 2 \<and> b = ''B1'' \<and> c = 1 \<and>
      v = Max {c'. \<exists>r'\<in>set [[(''battery'', Str ''B1''), (''cycle'', IntV 1), (''RUL'', IntV 2)],
        [(''battery'', Str ''B1''), (''cycle'', IntV 2), (''RUL'', IntV 1)],
        [(''battery'', Str ''B1''), (''cycle'', IntV 3), (''RUL'', IntV 0)],
        [(''battery'', Str ''B2''), (''cycle'', IntV 1), (''RUL'', IntV 0)]].
           map_of r' ''battery'' = Some (Str b) \<and> map_of r' ''cycle'' = Some (IntV c')} - c)"
proof -
  let ?r = "[(''battery'', Str ''B1''), (''cycle'', IntV 1), (''RUL'', IntV 2)]"
  let ?final = "[?r,
        [(''battery'', Str ''B1''), (''cycle'', IntV 2), (''RUL'', IntV 1)],
        [(''battery'', Str ''B1''), (''cycle'', IntV 3), (''RUL'', IntV 0)],
        [(''battery'', Str ''B2''), (''cycle'', IntV 1), (''RUL'', IntV 0)]]"
  let ?dfs = "[[[(''battery'', Str ''B1''), (''cycle'', IntV 1)], [(''battery'', Str ''B1''), (''cycle'', IntV 2)],
       [(''battery'', Str ''B1''), (''cycle'', IntV 3)]],
      [[(''battery'', Str ''B2''), (''cycle'', IntV 1)]]]"
  have run: "add_RUL (concat ?dfs) = Inr ?final"
    by (simp add: add_RUL_def rul_transform_def)
  have mem: "?r \<in> set ?final" by simp
  from rul_is_group_max_minus_cycle[OF run mem] obtain b c v where
    b: "map_of ?r ''battery'' = Some (Str b)" and c: "map_of ?r ''cycle'' = Some (IntV c)" and
    v: "map_of ?r ''RUL'' = Some (IntV v)" and
    m: "v = Max {c'. \<exists>r'\<in>set ?final. map_of r' ''battery'' = Some (Str b) \<and>
                                     map_of r' ''cycle'' = Some (IntV c')} - c"
    by blast
  from b have b1: "b = ''B1''" by simp
  from c have c1: "c = 1" by simp
  from v have v2: "v = 2" by simp
  from b c v m b1 c1 v2 have "\<exists>b c v. map_of ?r ''battery'' = Some (Str b) \<and>
      map_of ?r ''cycle'' = Some (IntV c) \<and> map_of ?r ''RUL'' = Some (IntV v) \<and>
      v = 2 \<and> b = ''B1'' \<and> c = 1 \<and>
      v = Max {c'. \<exists>r'\<in>set ?final. map_of r' ''battery'' = Some (Str b) \<and>
                                     map_of r' ''cycle'' = Some (IntV c')} - c"
    by blast
  with run show ?thesis by (intro conjI)
qed

section \<open>Battery names\<close>

lemma process_battery_row:
  assumes "process_battery fmean seps path mat = Inr df" and "r \<in> set df"
  shows "\<exists>idx rest. r = (''battery'', Str (battery_name_of seps path)) #
                        (''cycle'', IntV (int idx + 1)) # rest"
proof -
  from assms obtain k cycles where mk: "main_key_of mat = Some k"
    and mo: "map_of mat k = Some (Some cycles)"
    by (auto simp: process_battery_def split: option.splits)
  from mk mo assms(1) obtain rc rd where
    ch: "map (cycle_features fmean) (filter (\<lambda>e. ctype e = ''charge'') cycles) = map Inr rc" and
    dis: "map (cycle_features fmean) (filter (\<lambda>e. ctype e = ''discharge'') cycles) = map Inr rd" and
    df: "df = pair_rows (battery_name_of seps path) rc rd"
    by (rule process_battery_Inr)
  from assms(2) obtain idx where "idx < length df" and r: "r = df ! idx"
    by (metis in_set_conv_nth)
  then have i: "idx < min (length rc) (length rd)" by (simp add: df pair_rows_length)
  show ?thesis unfolding r df paired_row(4)[OF ch dis i] by blast
qed

lemma batch_loop_Inr:
  "batch_loop fmean seps files acc = Inr all_dfs \<Longrightarrow>
   \<exists>dfs. map (\<lambda>(p, m). process_battery fmean seps p m) files = map Inr dfs \<and>
         all_dfs = acc @ filter (\<lambda>df. \<not> df_empty df) dfs"
proof (induction files arbitrary: acc)
  case Nil
  then show ?case by simp
next
  case (Cons f files)
  obtain p m where f: "f = (p, m)" by (cases f)
  from Cons.prems f obtain df where df: "process_battery fmean seps p m = Inr df"
    and rest: "batch_loop fmean seps files (if \<not> df_empty df then acc @ [df] else acc) = Inr all_dfs"
    by (auto split: sum.splits)
  from Cons.IH[OF rest] obtain dfs where
    "map (\<lambda>(p, m). process_battery fmean seps p m) files = map Inr dfs"
    "all_dfs = (if \<not> df_empty df then acc @ [df] else acc) @ filter (\<lambda>df. \<not> df_empty df) dfs"
    by blast
  with df f show ?case by (intro exI[of _ "df # dfs"]) simp
qed

lemma main_Some:
  assumes "main fmean seps files = Inr (Some final_df)"
  obtains dfs where
    "map (\<lambda>(p, m). process_battery fmean seps p m) files = map Inr dfs"
    "add_RUL (concat (filter (\<lambda>df. \<not> df_empty df) dfs)) = Inr final_df"
proof -
  from assms obtain all_dfs where bl: "batch_loop fmean seps files [] = Inr all_dfs"
    and ar: "add_RUL (concat all_dfs) = Inr final_df"
    by (auto simp: main_def split: sum.splits if_splits)
  from batch_loop_Inr[OF bl] ar that show thesis by auto
qed

lemma concat_nonempty: "set (concat (filter (\<lambda>df. \<not> df_empty df) dfs)) = set (concat dfs)"
  by (induction dfs) (auto simp: df_empty_def)

lemma add_RUL_keys:
  assumes "add_RUL df = Inr out"
  shows "keys_of ` set out = keys_of ` set df"
proof -
  from assms obtain kcs where kc: "key_columns df = Inr kcs"
    and ko: "map keys_of out = map (\<lambda>(b, c). (Some (Str b), Some (IntV c))) kcs"
    by (rule add_RUL_Inr)
  from key_columns_Inr[OF kc] ko have "map keys_of out = map keys_of df" by simp
  then show ?thesis by (metis set_map)
qed

text \<open>
  C10. The \<open>battery\<close> field of every row that \<open>process_battery\<close> emits for a path is the
  base name of the path cut at its first dot. In the final table every row of every file
  is present under that name, and the group over which the \<open>RUL\<close> of a row is computed is
  made of all the rows of the final table that have the row's name, whatever file they come
  from: two files in different directories whose base names are cut to the same name form
  one battery group.
\<close>

theorem battery_is_truncated_base_name:
  "(\<forall>df. process_battery fmean seps path mat = Inr df \<longrightarrow>
      (\<forall>r\<in>set df. map_of r ''battery'' =
         Some (Str (takeWhile (\<lambda>c. c \<noteq> CHR ''.'') (basename seps path))))) \<and>
   (\<forall>final_df. main fmean seps files = Inr (Some final_df) \<longrightarrow>
      (\<forall>(p, m)\<in>set files. \<forall>df. process_battery fmean seps p m = Inr df \<longrightarrow>
         (\<forall>r0\<in>set df. \<exists>r\<in>set final_df.
            map_of r ''battery'' = Some (Str (takeWhile (\<lambda>c. c \<noteq> CHR ''.'') (basename seps p))) \<and>
            map_of r ''cycle'' = map_of r0 ''cycle'')) \<and>
      (\<forall>r\<in>set final_df. \<exists>b c.
         map_of r ''battery'' = Some (Str b) \<and> map_of r ''cycle'' = Some (IntV c) \<and>
         (\<exists>(p, m)\<in>set files. b = takeWhile (\<lambda>c. c \<noteq> CHR ''.'') (basename seps p)) \<and>
         map_of r ''RUL'' =
           Some (IntV (Max {c'. \<exists>r'\<in>set final_df. map_of r' ''battery'' = Some (Str b) \<and>
                                  map_of r' ''cycle'' = Some (IntV c')} - c))))"
proof -
  have one: "map_of r ''battery'' = Some (Str (takeWhile (\<lambda>c. c \<noteq> CHR ''.'') (basename seps p)))"
    if "process_battery fmean seps p m = Inr df" "r \<in> set df" for p m df r
    using process_battery_row[OF that] by (auto simp: battery_name_of_def)
  have batch: "(\<forall>(p, m)\<in>set files. \<forall>df. process_battery fmean seps p m = Inr df \<longrightarrow>
         (\<forall>r0\<in>set df. \<exists>r\<in>set final_df.
            map_of r ''battery'' = Some (Str (takeWhile (\<lambda>c. c \<noteq> CHR ''.'') (basename seps p))) \<and>
            map_of r ''cycle'' = map_of r0 ''cycle'')) \<and>
      (\<forall>r\<in>set final_df. \<exists>b c.
         map_of r ''battery'' = Some (Str b) \<and> map_of r ''cycle'' = Some (IntV c) \<and>
         (\<exists>(p, m)\<in>set files. b = takeWhile (\<lambda>c. c \<noteq> CHR ''.'') (basename seps p)) \<and>
         map_of r ''RUL'' =
           Some (IntV (Max {c'. \<exists>r'\<in>set final_df. map_of r' ''battery'' = Some (Str b) \<and>
                                  map_of r' ''cycle'' = Some (IntV c')} - c)))"
    if mn: "main fmean seps files = Inr (Some final_df)" for final_df
  proof -
    from mn obtain dfs where
      dfs: "map (\<lambda>(p, m). process_battery fmean seps p m) files = map Inr dfs" and
      ar: "add_RUL (concat (filter (\<lambda>df. \<not> df_empty df) dfs)) = Inr final_df"
      by (rule main_Some)
    have keys: "keys_of ` set final_df = keys_of ` set (concat dfs)"
      using add_RUL_keys[OF ar] unfolding concat_nonempty .
    have len: "length dfs = length files" using dfs by (metis length_map)
    have part1: "\<exists>r\<in>set final_df.
            map_of r ''battery'' = Some (Str (takeWhile (\<lambda>c. c \<noteq> CHR ''.'') (basename seps p))) \<and>
            map_of r ''cycle'' = map_of r0 ''cycle''"
      if pm: "(p, m) \<in> set files" and pb: "process_battery fmean seps p m = Inr df" and r0: "r0 \<in> set df"
      for p m df r0
    proof -
      from pm obtain i where i: "i < length files" "files ! i = (p, m)" by (metis in_set_conv_nth)
      from dfs i have "process_battery fmean seps p m = Inr (dfs ! i)"
        using map_Inr_nth(1)[OF dfs i(1)] by simp
      with pb have "df = dfs ! i" by simp
      with i len have "df \<in> set dfs" by simp
      with r0 have "r0 \<in> set (concat dfs)" by auto
      then have "keys_of r0 \<in> keys_of ` set final_df" unfolding keys by (rule imageI)
      then obtain r where r: "r \<in> set final_df" "keys_of r = keys_of r0" by force
      with one[OF pb r0] show ?thesis by (auto simp: keys_of_def)
    qed
    have part2: "\<exists>b c.
         map_of r ''battery'' = Some (Str b) \<and> map_of r ''cycle'' = Some (IntV c) \<and>
         (\<exists>(p, m)\<in>set files. b = takeWhile (\<lambda>c. c \<noteq> CHR ''.'') (basename seps p)) \<and>
         map_of r ''RUL'' =
           Some (IntV (Max {c'. \<exists>r'\<in>set final_df. map_of r' ''battery'' = Some (Str b) \<and>
                                  map_of r' ''cycle'' = Some (IntV c')} - c))"
      if r: "r \<in> set final_df" for r
    proof -
      from add_RUL_row[OF ar r] obtain b c where
        b: "map_of r ''battery'' = Some (Str b)" and c: "map_of r ''cycle'' = Some (IntV c)" and
        v: "map_of r ''RUL'' = Some (IntV (Max {c'. \<exists>r'\<in>set final_df. map_of r' ''battery'' = Some (Str b) \<and>
                                  map_of r' ''cycle'' = Some (IntV c')} - c))"
        by blast
      from r have "keys_of r \<in> keys_of ` set (concat dfs)" unfolding keys[symmetric] by (rule imageI)
      then obtain r0 df where r0: "r0 \<in> set df" "df \<in> set dfs" "keys_of r0 = keys_of r" by force
      from r0(2) obtain i where i: "i < length dfs" "dfs ! i = df" by (metis in_set_conv_nth)
      obtain p m where pm: "files ! i = (p, m)" by (cases "files ! i")
      from i len have il: "i < length files" by simp
      have pb: "process_battery fmean seps p m = Inr df"
        using map_Inr_nth(1)[OF dfs il] pm i by simp
      from one[OF pb r0(1)] r0(3) b have "b = takeWhile (\<lambda>c. c \<noteq> CHR ''.'') (basename seps p)"
        by (simp add: keys_of_def)
      moreover have "(p, m) \<in> set files" using il pm by (metis nth_mem)
      ultimately have "\<exists>(p, m)\<in>set files. b = takeWhile (\<lambda>c. c \<noteq> CHR ''.'') (basename seps p)"
        by blast
      with b c v show ?thesis by blast
    qed
    from part1 part2 show ?thesis by blast
  qed
  from one batch show ?thesis by blast
qed

lemma two_files_table:
  "(case main exact_mean ''/'' two_files of
      Inr (Some t) \<Rightarrow> map (\<lambda>r. (map_of r ''battery'', map_of r ''cycle'', map_of r ''RUL'')) t
    | _ \<Rightarrow> []) =
   [(Some (Str ''B0005''), Some (IntV 1), Some (IntV 1)),
    (Some (Str ''B0005''), Some (IntV 2), Some (IntV 0)),
    (Some (Str ''B0005''), Some (IntV 1), Some (IntV 1))]"
  by code_simp

lemma second_file_table:
  "(case process_battery exact_mean ''/'' ''dirB/B0005.v2.mat''
           [(''B0005'', Some [ex_charge, ex_junk, ex_discharge])] of
      Inr t \<Rightarrow> length t
    | _ \<Rightarrow> 0) = 1"
  by code_simp

theorem battery_is_truncated_base_name_witness:
  "\<exists>df final_df.
     process_battery exact_mean ''/'' ''dirB/B0005.v2.mat''
        [(''B0005'', Some [ex_charge, ex_junk, ex_discharge])] = Inr df \<and>
     map (\<lambda>r. map_of r ''battery'') df = [Some (Str ''B0005'')] \<and>
     main exact_mean ''/'' two_files = Inr (Some final_df) \<and>
     map (\<lambda>r. (map_of r ''battery'', map_of r ''cycle'', map_of r ''RUL'')) final_df =
       [(Some (Str ''B0005''), Some (IntV 1), Some (IntV 1)),
        (Some (Str ''B0005''), Some (IntV 2), Some (IntV 0)),
        (Some (Str ''B0005''), Some (IntV 1), Some (IntV 1))]"
proof -
  let ?m = "[(''B0005'', Some [ex_charge, ex_junk, ex_discharge])]"
  from second_file_table obtain df where
    df: "process_battery exact_mean ''/'' ''dirB/B0005.v2.mat'' ?m = Inr df" and len: "length df = 1"
    by (cases "process_battery exact_mean ''/'' ''dirB/B0005.v2.mat'' ?m") simp_all
  from len obtain r where r: "df = [r]" by (cases df) simp_all
  from two_files_table obtain final_df where
    fin: "main exact_mean ''/'' two_files = Inr (Some final_df)" and
    view: "map (\<lambda>r. (map_of r ''battery'', map_of r ''cycle'', map_of r ''RUL'')) final_df =
       [(Some (Str ''B0005''), Some (IntV 1), Some (IntV 1)),
        (Some (Str ''B0005''), Some (IntV 2), Some (IntV 0)),
        (Some (Str ''B0005''), Some (IntV 1), Some (IntV 1))]"
    by (cases "main exact_mean ''/'' two_files") (auto split: option.splits)
  have name: "takeWhile (\<lambda>c. c \<noteq> CHR ''.'') (basename ''/'' ''dirB/B0005.v2.mat'') = ''B0005''"
    by (simp add: basename_def)
  from battery_is_truncated_base_name[of exact_mean "''/''" "''dirB/B0005.v2.mat''" ?m two_files] df
  have "\<forall>r\<in>set df. map_of r ''battery'' =
         Some (Str (takeWhile (\<lambda>c. c \<noteq> CHR ''.'') (basename ''/'' ''dirB/B0005.v2.mat'')))"
    by blast
  then have bat: "map (\<lambda>r. map_of r ''battery'') df = [Some (Str ''B0005'')]"
    unfolding name r by simp
  show ?thesis
    by (rule exI[of _ df], rule exI[of _ final_df], intro conjI)
       (fact df, fact bat, fact fin, fact view)
qed

section \<open>Missing and empty sensor channels\<close>








end
